theory Spec2Isabelle
  imports Complex_Main
begin

section \<open>JavaScript numbers\<close>

text \<open>
  A JavaScript \<^verbatim>\<open>number\<close> is modelled by its value: a finite real, one of the two
  infinities, or NaN. Finite arithmetic is taken to be exact (no rounding, no overflow
  to an infinity, no underflow to zero) and the two zeros are identified; the special
  values follow IEEE 754 as JavaScript does: \<open>0/0\<close>, \<open>\<infinity> - \<infinity>\<close>, \<open>0 * \<infinity>\<close> and \<open>\<infinity>/\<infinity>\<close>
  are NaN, every comparison with NaN is false.
\<close>

datatype number = Num real | PosInf | NegInf | NaN

fun num_neg :: "number \<Rightarrow> number" where
  "num_neg (Num x) = Num (- x)"
| "num_neg PosInf = NegInf"
| "num_neg NegInf = PosInf"
| "num_neg NaN = NaN"

fun num_add :: "number \<Rightarrow> number \<Rightarrow> number" where
  "num_add NaN _ = NaN"
| "num_add _ NaN = NaN"
| "num_add (Num x) (Num y) = Num (x + y)"
| "num_add PosInf NegInf = NaN"
| "num_add NegInf PosInf = NaN"
| "num_add PosInf _ = PosInf"
| "num_add _ PosInf = PosInf"
| "num_add NegInf _ = NegInf"
| "num_add _ NegInf = NegInf"

definition num_sub :: "number \<Rightarrow> number \<Rightarrow> number" where
  "num_sub a b = num_add a (num_neg b)"

text \<open>The sign of a number that is not NaN: \<open>-1\<close>, \<open>0\<close> or \<open>1\<close>.\<close>

fun num_sgn :: "number \<Rightarrow> real" where
  "num_sgn (Num x) = sgn x"
| "num_sgn PosInf = 1"
| "num_sgn NegInf = - 1"
| "num_sgn NaN = 0"

definition inf_of_sign :: "real \<Rightarrow> number" where
  "inf_of_sign s = (if s = 0 then NaN else if 0 < s then PosInf else NegInf)"

fun num_mul :: "number \<Rightarrow> number \<Rightarrow> number" where
  "num_mul NaN _ = NaN"
| "num_mul _ NaN = NaN"
| "num_mul (Num x) (Num y) = Num (x * y)"
| "num_mul a b = inf_of_sign (num_sgn a * num_sgn b)"

text \<open>
  Division. A finite value over zero is an infinity of the dividend's sign (the divisors
  that occur below are products of square roots, hence never the negative zero), and
  zero over zero is NaN.
\<close>

fun num_div :: "number \<Rightarrow> number \<Rightarrow> number" where
  "num_div NaN _ = NaN"
| "num_div _ NaN = NaN"
| "num_div (Num x) (Num y) = (if y = 0 then inf_of_sign x else Num (x / y))"
| "num_div (Num x) _ = Num 0"
| "num_div a (Num y) = (if y = 0 then a else inf_of_sign (num_sgn a * y))"
| "num_div _ _ = NaN"

fun num_sqrt :: "number \<Rightarrow> number" where
  "num_sqrt (Num x) = (if x < 0 then NaN else Num (sqrt x))"
| "num_sqrt PosInf = PosInf"
| "num_sqrt NegInf = NaN"
| "num_sqrt NaN = NaN"

text \<open>\<^verbatim>\<open>a >= b\<close> and \<^verbatim>\<open>a > b\<close>.\<close>

fun num_ge :: "number \<Rightarrow> number \<Rightarrow> bool" where
  "num_ge NaN _ = False"
| "num_ge _ NaN = False"
| "num_ge (Num x) (Num y) = (y \<le> x)"
| "num_ge PosInf _ = True"
| "num_ge _ NegInf = True"
| "num_ge _ _ = False"

fun num_gt :: "number \<Rightarrow> number \<Rightarrow> bool" where
  "num_gt NaN _ = False"
| "num_gt _ NaN = False"
| "num_gt (Num x) (Num y) = (y < x)"
| "num_gt PosInf PosInf = False"
| "num_gt NegInf NegInf = False"
| "num_gt PosInf _ = True"
| "num_gt _ NegInf = True"
| "num_gt _ _ = False"

section \<open>Cosine similarity\<close>

text \<open>
  The scoring loop of both \<^verbatim>\<open>cosineSimilarity\<close> methods: it runs over the indices of
  \<open>a\<close> after the lengths were found equal and accumulates the dot product and the two
  squared norms.
\<close>

fun cosine_loop ::
  "number list \<Rightarrow> number list \<Rightarrow> number \<times> number \<times> number \<Rightarrow> number \<times> number \<times> number" where
  "cosine_loop (x # xs) (y # ys) (dotProduct, normA, normB) =
     cosine_loop xs ys
       (num_add dotProduct (num_mul x y), num_add normA (num_mul x x), num_add normB (num_mul y y))"
| "cosine_loop _ _ acc = acc"

text \<open>\<^verbatim>\<open>RedisVectorStore.cosineSimilarity\<close> (src/lib/redis-vector.ts).\<close>

definition cosineSimilarity :: "number list \<Rightarrow> number list \<Rightarrow> number" where
  "cosineSimilarity a b =
     (if length a \<noteq> length b then Num 0
      else case cosine_loop a b (Num 0, Num 0, Num 0) of
        (dotProduct, normA, normB) \<Rightarrow>
          if normA = Num 0 \<or> normB = Num 0 then Num 0
          else num_div dotProduct (num_mul (num_sqrt normA) (num_sqrt normB)))"

text \<open>\<^verbatim>\<open>RAGSystem.cosineSimilarity\<close> (src/lib/rag-system.ts): the same loop, no test of the norms.\<close>

definition rag_cosineSimilarity :: "number list \<Rightarrow> number list \<Rightarrow> number" where
  "rag_cosineSimilarity a b =
     (if length a \<noteq> length b then Num 0
      else case cosine_loop a b (Num 0, Num 0, Num 0) of
        (dotProduct, normA, normB) \<Rightarrow>
          num_div dotProduct (num_mul (num_sqrt normA) (num_sqrt normB)))"

section \<open>Strings\<close>

text \<open>
  A JavaScript string is modelled as a \<^typ>\<open>string\<close>: one \<^typ>\<open>char\<close> per code unit,
  for texts whose code units are below 256. \<^verbatim>\<open>length\<close> is \<^const>\<open>length\<close>.
\<close>

text \<open>The characters of the class \<^verbatim>\<open>[.!?]\<close>.\<close>

definition is_terminal :: "char \<Rightarrow> bool" where
  "is_terminal c = (c = CHR ''.'' \<or> c = CHR ''!'' \<or> c = CHR ''?'')"

text \<open>
  The characters of the class \<^verbatim>\<open>\s\<close>, which are also the ones \<^verbatim>\<open>trim()\<close> removes: tab,
  line feed, vertical tab, form feed, carriage return, space and the no-break space.
\<close>

definition is_space :: "char \<Rightarrow> bool" where
  "is_space c = (c = CHR 0x09 \<or> c = CHR 0x0A \<or> c = CHR 0x0B \<or> c = CHR 0x0C \<or> c = CHR 0x0D
                 \<or> c = CHR 0x20 \<or> c = CHR 0xA0)"

definition trim :: "string \<Rightarrow> string" where
  "trim s = rev (dropWhile is_space (rev (dropWhile is_space s)))"

text \<open>
  \<^verbatim>\<open>s.split(/[C]+/)\<close> for a character class \<open>C\<close>: the pieces between the maximal runs
  of characters of the class, the empty piece before a leading run and after a trailing
  run included. \<open>cur\<close> is the piece being read, \<open>insep\<close> tells that the last character
  read was of the class.
\<close>

fun split_runs :: "(char \<Rightarrow> bool) \<Rightarrow> string \<Rightarrow> bool \<Rightarrow> string \<Rightarrow> string list" where
  "split_runs C cur insep [] = [cur]"
| "split_runs C cur insep (c # cs) =
     (if C c then (if insep then split_runs C [] True cs else cur # split_runs C [] True cs)
      else split_runs C (cur @ [c]) False cs)"

definition split_on :: "(char \<Rightarrow> bool) \<Rightarrow> string \<Rightarrow> string list" where
  "split_on C s = split_runs C [] False s"

text \<open>
  \<^verbatim>\<open>s.match(/[^C]+[C]+/g)\<close>, with the empty list for \<^verbatim>\<open>null\<close>: every maximal run of
  characters outside the class that is followed by a character of the class, together
  with the maximal run of class characters after it. A leading run of class characters
  starts no match, and a last run outside the class that nothing follows is in no match.
  \<open>body\<close> and \<open>tail\<close> are the two parts of the match being read.
\<close>

fun match_runs :: "(char \<Rightarrow> bool) \<Rightarrow> string \<Rightarrow> string \<Rightarrow> string \<Rightarrow> string list" where
  "match_runs C body tail [] = (if tail = [] then [] else [body @ tail])"
| "match_runs C body tail (c # cs) =
     (if C c then (if body = [] then match_runs C [] [] cs else match_runs C body (tail @ [c]) cs)
      else (if tail = [] then match_runs C (body @ [c]) [] cs
            else (body @ tail) # match_runs C [c] [] cs))"

definition match_sentences :: "string \<Rightarrow> string list" where
  "match_sentences s = match_runs is_terminal [] [] s"

text \<open>\<^verbatim>\<open>s.match(/[C]+/g)?.length\<close>, with 0 for \<^verbatim>\<open>undefined\<close>: the number of maximal runs.\<close>

fun count_runs :: "(char \<Rightarrow> bool) \<Rightarrow> bool \<Rightarrow> string \<Rightarrow> nat" where
  "count_runs C insep [] = 0"
| "count_runs C insep (c # cs) =
     (if C c then (if insep then count_runs C True cs else Suc (count_runs C True cs))
      else count_runs C False cs)"

text \<open>\<^verbatim>\<open>words.join(" ")\<close>.\<close>

fun join_space :: "string list \<Rightarrow> string" where
  "join_space [] = []"
| "join_space [w] = w"
| "join_space (w # ws) = w @ '' '' @ join_space ws"

text \<open>
  \<^verbatim>\<open>xs.slice(start)\<close> for an integral \<open>start\<close>: a negative start counts from the end, and
  a start outside the array is clamped.
\<close>

definition slice_from :: "int \<Rightarrow> 'a list \<Rightarrow> 'a list" where
  "slice_from start xs =
     (let len = int (length xs);
          k = (if start < 0 then max (len + start) 0 else min start len)
      in drop (nat k) xs)"

text \<open>The decimal digits of a natural number, as a template literal prints it.\<close>

fun string_of_nat :: "nat \<Rightarrow> string" where
  "string_of_nat n =
     (if n < 10 then [char_of (48 + n)] else string_of_nat (n div 10) @ [char_of (48 + n mod 10)])"

declare string_of_nat.simps [simp del]

section \<open>Chunker of the RAG system\<close>

record ChunkMetadata =
  startChar :: nat
  endChar :: nat
  wordCount :: nat
  sentenceCount :: nat

record DocumentChunk =
  chunk_id :: string
  documentId :: string
  content :: string
  chunkIndex :: nat
  embedding :: "number list"
  metadata :: ChunkMetadata

text \<open>The variables of the loop of \<^verbatim>\<open>chunkDocument\<close>.\<close>

record chunker_state =
  chunks :: "DocumentChunk list"
  currentChunk :: string
  nextIndex :: nat
  nextStart :: nat

text \<open>The chunk record that both \<^verbatim>\<open>chunks.push\<close> calls of \<^verbatim>\<open>RAGSystem.chunkDocument\<close> build.\<close>

definition make_chunk :: "string \<Rightarrow> chunker_state \<Rightarrow> DocumentChunk" where
  "make_chunk docId st =
     \<lparr> chunk_id = docId @ ''_chunk_'' @ string_of_nat (nextIndex st),
       documentId = docId,
       content = trim (currentChunk st),
       chunkIndex = nextIndex st,
       embedding = [],
       metadata = \<lparr> startChar = nextStart st,
                    endChar = nextStart st + length (currentChunk st),
                    wordCount = length (split_on is_space (currentChunk st)),
                    sentenceCount = (let n = count_runs is_terminal False (currentChunk st)
                                     in if n = 0 then 1 else n) \<rparr> \<rparr>"

text \<open>
  One iteration of the loop over the sentences, for the configured \<open>chunkSize\<close> and
  \<open>chunkOverlap\<close> (finite numbers).
\<close>

definition chunk_step :: "real \<Rightarrow> real \<Rightarrow> string \<Rightarrow> chunker_state \<Rightarrow> string \<Rightarrow> chunker_state" where
  "chunk_step chunkSize chunkOverlap docId st s =
     (let sentence = trim s in
      if sentence = [] then st
      else
        let potentialChunk = currentChunk st @ (if currentChunk st \<noteq> [] then '' '' else []) @ sentence;
            estimatedTokens = real (length potentialChunk) / 4
        in if estimatedTokens > chunkSize \<and> length (currentChunk st) > 0 then
             let wordsL = split_on is_space (currentChunk st);
                 overlapWords = slice_from (- \<lfloor>chunkOverlap / 4\<rfloor>) wordsL;
                 newChunk = join_space overlapWords @ '' '' @ sentence
             in \<lparr> chunks = chunks st @ [make_chunk docId st],
                  currentChunk = newChunk,
                  nextIndex = nextIndex st + 1,
                  nextStart = nextStart st + (length newChunk - length (join_space overlapWords)) \<rparr>
           else st \<lparr> currentChunk := potentialChunk \<rparr>)"

text \<open>\<^verbatim>\<open>content.match(/[^.!?]+[.!?]+/g) || [content]\<close>.\<close>

definition rag_sentences :: "string \<Rightarrow> string list" where
  "rag_sentences contentText =
     (case match_sentences contentText of [] \<Rightarrow> [contentText] | ms \<Rightarrow> ms)"

definition chunkDocument :: "real \<Rightarrow> real \<Rightarrow> string \<Rightarrow> string \<Rightarrow> DocumentChunk list" where
  "chunkDocument chunkSize chunkOverlap contentText docId =
     (let sentences = rag_sentences contentText;
          st = foldl (chunk_step chunkSize chunkOverlap docId)
                 \<lparr> chunks = [], currentChunk = [], nextIndex = 0, nextStart = 0 \<rparr> sentences
      in if length (trim (currentChunk st)) > 0 then chunks st @ [make_chunk docId st]
         else chunks st)"

section \<open>Chunker of the document-processing endpoint\<close>

text \<open>\<^verbatim>\<open>DocumentChunk\<close> of src/app/api/documents/process/route.ts. The optional fields
  \<^verbatim>\<open>embedding\<close> and \<^verbatim>\<open>error\<close> are \<open>None\<close> when absent or \<^verbatim>\<open>null\<close>.\<close>

record ProcessMetadata =
  pm_startChar :: nat
  pm_endChar :: nat
  pm_wordCount :: nat

record ProcessChunk =
  pc_id :: string
  pc_documentId :: string
  pc_content :: string
  pc_chunkIndex :: nat
  pc_metadata :: ProcessMetadata
  pc_embedding :: "number list option"
  pc_error :: "string option"

record process_state =
  p_chunks :: "ProcessChunk list"
  p_currentChunk :: string
  p_chunkIndex :: nat
  p_startChar :: nat

definition process_make_chunk :: "string \<Rightarrow> process_state \<Rightarrow> ProcessChunk" where
  "process_make_chunk docId st =
     \<lparr> pc_id = docId @ ''_chunk_'' @ string_of_nat (p_chunkIndex st),
       pc_documentId = docId,
       pc_content = trim (p_currentChunk st),
       pc_chunkIndex = p_chunkIndex st,
       pc_metadata = \<lparr> pm_startChar = p_startChar st,
                       pm_endChar = p_startChar st + length (p_currentChunk st),
                       pm_wordCount = length (split_on is_space (p_currentChunk st)) \<rparr>,
       pc_embedding = None,
       pc_error = None \<rparr>"

text \<open>
  One iteration of the loop over the sentences. The source adds to \<^verbatim>\<open>startChar\<close> the
  difference of the new buffer's length and the lengths of its two parts, computed here
  over the integers as the source computes it over numbers.
\<close>

definition process_chunk_step ::
  "real \<Rightarrow> real \<Rightarrow> string \<Rightarrow> process_state \<Rightarrow> string \<Rightarrow> process_state" where
  "process_chunk_step maxChunkSize overlapSize docId st sentence =
     (let trimmedSentence = trim sentence in
      if trimmedSentence = [] then st
      else
        let estimatedTokens = real (length (p_currentChunk st @ trimmedSentence)) / 4
        in if estimatedTokens > maxChunkSize \<and> length (p_currentChunk st) > 0 then
             let wordsL = split_on is_space (p_currentChunk st);
                 overlapWords = slice_from (- \<lfloor>overlapSize / 4\<rfloor>) wordsL;
                 newChunk = join_space overlapWords @ '' '' @ trimmedSentence
             in \<lparr> p_chunks = p_chunks st @ [process_make_chunk docId st],
                  p_currentChunk = newChunk,
                  p_chunkIndex = p_chunkIndex st + 1,
                  p_startChar = nat (int (p_startChar st) + (int (length newChunk)
                     - (int (length (join_space overlapWords)) + int (length trimmedSentence)))) \<rparr>
           else st \<lparr> p_currentChunk :=
                  p_currentChunk st @ (if p_currentChunk st \<noteq> [] then '' '' else []) @ trimmedSentence \<rparr>)"

definition process_sentences :: "string \<Rightarrow> string list" where
  "process_sentences contentText = filter (\<lambda>s. length (trim s) > 0) (split_on is_terminal contentText)"

definition process_chunkDocument :: "string \<Rightarrow> string \<Rightarrow> ProcessChunk list" where
  "process_chunkDocument contentText docId =
     (let maxChunkSize = 800;
          overlapSize = 100;
          sentences = process_sentences contentText;
          st = foldl (process_chunk_step maxChunkSize overlapSize docId)
                 \<lparr> p_chunks = [], p_currentChunk = [], p_chunkIndex = 0, p_startChar = 0 \<rparr> sentences
      in if length (trim (p_currentChunk st)) > 0 then p_chunks st @ [process_make_chunk docId st]
         else p_chunks st)"

section \<open>External services\<close>

text \<open>What a \<^verbatim>\<open>throw\<close> or a rejected promise carries.\<close>

datatype exn =
    NetworkError            \<comment> \<open>\<^verbatim>\<open>fetch\<close> rejected: the service could not be reached\<close>
  | ApiError nat            \<comment> \<open>\<^verbatim>\<open>new Error(`OpenAI API error: ${status}`)\<close>\<close>
  | RedisError nat          \<comment> \<open>\<^verbatim>\<open>new Error(`Redis command failed: ${status}`)\<close>\<close>
  | SyntaxError             \<comment> \<open>\<^verbatim>\<open>response.json()\<close> or \<^verbatim>\<open>JSON.parse\<close> on text that is not JSON\<close>
  | TypeError               \<comment> \<open>a property read on \<^verbatim>\<open>undefined\<close> or \<^verbatim>\<open>null\<close>\<close>
  | DocumentError           \<comment> \<open>the errors \<^verbatim>\<open>fetchGoogleDoc\<close> throws\<close>

text \<open>
  The outcome of one \<^verbatim>\<open>fetch\<close>: no connection, or a reply with its status and its
  body, \<open>None\<close> when the body is not JSON.
\<close>

datatype 'b http = NoConnection | Reply nat "'b option"

definition ok :: "nat \<Rightarrow> bool" where
  "ok status = (200 \<le> status \<and> status \<le> 299)"

text \<open>
  \<^verbatim>\<open>try { body } catch (error) { handler }\<close> for a body whose throw is the value \<open>Inl\<close>.
\<close>

definition try_catch :: "exn + 'a \<Rightarrow> (exn \<Rightarrow> exn + 'a) \<Rightarrow> exn + 'a" where
  "try_catch body handler = (case body of Inl e \<Rightarrow> handler e | Inr v \<Rightarrow> Inr v)"

section \<open>Semantic cache and query router (chat endpoint)\<close>

record Config =
  openaiKey :: string
  langcacheUrl :: string
  cacheId :: string
  serviceKey :: string
  shadowMode :: bool

text \<open>
  An entry of the \<^verbatim>\<open>data\<close> array of the cache service's search reply. A missing
  \<^verbatim>\<open>response\<close> is the empty string (both are falsy); the other two fields are \<open>None\<close>
  when missing.
\<close>

record cache_entry =
  ce_response :: string
  ce_similarity :: "number option"
  ce_prompt :: "string option"

text \<open>The body of the generation service's reply: the message contents of \<^verbatim>\<open>choices\<close>
  (\<open>None\<close> when the reply has no such array, the empty string for a choice without
  content) and \<^verbatim>\<open>usage.total_tokens\<close>.\<close>

record openai_data =
  choices :: "string list option"
  total_tokens :: "nat option"

text \<open>
  The services as the endpoint sees them: the reply to each request, and the two
  differences of \<^verbatim>\<open>Date.now()\<close> that the endpoint measures.
\<close>

record services =
  langcache_search :: "string \<Rightarrow> string \<Rightarrow> string \<Rightarrow> cache_entry list http"
    \<comment> \<open>url, bearer key, prompt; the list starts with \<^verbatim>\<open>data[0]\<close> and is empty when the body has none\<close>
  langcache_store :: "string \<Rightarrow> string \<Rightarrow> string \<Rightarrow> string \<Rightarrow> unit http"
    \<comment> \<open>url, bearer key, prompt, response\<close>
  openai_chat :: "string \<Rightarrow> string \<Rightarrow> openai_data http"
    \<comment> \<open>bearer key, user message\<close>
  openai_latency :: nat
  cache_latency :: nat

text \<open>The requests sent, in the order they are issued.\<close>

datatype call =
    SearchCall string string
  | StoreCall string string string
  | ChatCall string

text \<open>The object \<^verbatim>\<open>searchLangCache\<close> returns; a field that the object lacks is \<open>None\<close>.\<close>

record cacheResult =
  hit :: bool
  response :: "string option"
  similarity :: "number option"
  cachedQuery :: "string option"

definition miss :: cacheResult where
  "miss = \<lparr> hit = False, response = None, similarity = None, cachedQuery = None \<rparr>"

definition search_url :: "Config \<Rightarrow> string" where
  "search_url config = langcacheUrl config @ ''/v1/caches/'' @ cacheId config @ ''/entries/search''"

definition store_url :: "Config \<Rightarrow> string" where
  "store_url config = langcacheUrl config @ ''/v1/caches/'' @ cacheId config @ ''/entries''"

text \<open>\<^verbatim>\<open>x || 0\<close> for a number that may be missing: zero and NaN are falsy.\<close>

definition or_zero :: "number option \<Rightarrow> number" where
  "or_zero x = (case x of None \<Rightarrow> Num 0 | Some v \<Rightarrow> if v = NaN \<or> v = Num 0 then Num 0 else v)"

text \<open>The \<^verbatim>\<open>try\<close> block of \<^verbatim>\<open>searchLangCache\<close>; \<open>Inl\<close> is what it throws.\<close>

definition searchLangCache_try :: "services \<Rightarrow> string \<Rightarrow> Config \<Rightarrow> exn + cacheResult" where
  "searchLangCache_try env query config =
     (if langcacheUrl config = [] \<or> cacheId config = [] \<or> serviceKey config = [] then Inr miss
      else case langcache_search env (search_url config) (serviceKey config) (trim query) of
        NoConnection \<Rightarrow> Inl NetworkError
      | Reply status body \<Rightarrow>
          if \<not> ok status then Inr miss
          else (case body of
            None \<Rightarrow> Inl SyntaxError
          | Some entries \<Rightarrow>
              (case entries of
                 e # _ \<Rightarrow>
                   if ce_response e \<noteq> [] then
                     Inr \<lparr> hit = True,
                           response = Some (ce_response e),
                           similarity = Some (or_zero (ce_similarity e)),
                           cachedQuery = Some (case ce_prompt e of
                                                 None \<Rightarrow> query
                                               | Some p \<Rightarrow> if p = [] then query else p) \<rparr>
                   else Inr miss
               | [] \<Rightarrow> Inr miss)))"

definition searchLangCache :: "services \<Rightarrow> string \<Rightarrow> Config \<Rightarrow> exn + cacheResult" where
  "searchLangCache env query config =
     try_catch (searchLangCache_try env query config) (\<lambda>error. Inr miss)"

text \<open>The request \<^verbatim>\<open>searchLangCache\<close> sends, if it sends one.\<close>

definition searchLangCache_calls :: "string \<Rightarrow> Config \<Rightarrow> call list" where
  "searchLangCache_calls query config =
     (if langcacheUrl config = [] \<or> cacheId config = [] \<or> serviceKey config = [] then []
      else [SearchCall (search_url config) (trim query)])"

definition storeInLangCache :: "services \<Rightarrow> string \<Rightarrow> string \<Rightarrow> Config \<Rightarrow> exn + bool" where
  "storeInLangCache env query resp config =
     try_catch
       (if langcacheUrl config = [] \<or> cacheId config = [] \<or> serviceKey config = [] then Inr False
        else case langcache_store env (store_url config) (serviceKey config) (trim query) (trim resp) of
          NoConnection \<Rightarrow> Inl NetworkError
        | Reply status _ \<Rightarrow> Inr (ok status))
       (\<lambda>error. Inr False)"

definition storeInLangCache_calls :: "string \<Rightarrow> string \<Rightarrow> Config \<Rightarrow> call list" where
  "storeInLangCache_calls query resp config =
     (if langcacheUrl config = [] \<or> cacheId config = [] \<or> serviceKey config = [] then []
      else [StoreCall (store_url config) (trim query) (trim resp)])"

record openaiResult =
  o_content :: string
  o_latency :: nat
  o_tokensUsed :: nat

definition callOpenAI :: "services \<Rightarrow> string \<Rightarrow> Config \<Rightarrow> exn + openaiResult" where
  "callOpenAI env query config =
     (case openai_chat env (openaiKey config) query of
        NoConnection \<Rightarrow> Inl NetworkError
      | Reply status body \<Rightarrow>
          if \<not> ok status then Inl (ApiError status)
          else (case body of
            None \<Rightarrow> Inl SyntaxError
          | Some data \<Rightarrow>
              (case choices data of
                 None \<Rightarrow> Inl TypeError
               | Some cs \<Rightarrow>
                   Inr \<lparr> o_content = (case cs of [] \<Rightarrow> ''No response generated''
                                      | c # _ \<Rightarrow> if c = [] then ''No response generated'' else c),
                         o_latency = openai_latency env,
                         o_tokensUsed = (case total_tokens data of None \<Rightarrow> 0 | Some t \<Rightarrow> t) \<rparr>)))"

text \<open>The body of the chat request: \<^verbatim>\<open>{ message, config }\<close>. A missing message is the
  empty string (both are falsy), a missing config is \<open>None\<close>.\<close>

record chat_request =
  message :: string
  config :: "Config option"

text \<open>The JSON object of a reply with status 200; a field it lacks is \<open>None\<close>.\<close>

record chat_json =
  r_content :: string
  r_cached :: bool
  r_shadowMode :: "bool option"
  r_cacheHit :: "bool option"
  r_similarity :: "number option"
  r_cachedQuery :: "string option"
  r_userQuery :: string
  r_latency :: nat
  r_tokensUsed :: "nat option"
  r_tokensSaved :: "nat option"

datatype failure = MissingMessageOrConfig | Thrown exn

datatype chat_response = Answer chat_json | Failed nat failure

text \<open>\<^verbatim>\<open>Math.ceil(s.length / 4)\<close>.\<close>

definition estimate_tokens :: "string \<Rightarrow> nat" where
  "estimate_tokens s = nat \<lceil>real (length s) / 4\<rceil>"

text \<open>
  The handler of the chat endpoint. It returns the reply and the requests it has issued.
  In shadow mode \<^verbatim>\<open>Promise.all\<close> starts the cache search and the generation call before it
  waits for either; a failed generation call rejects the whole and the outer \<^verbatim>\<open>catch\<close>
  answers with status 500. The store request is started and not awaited.
\<close>

definition POST :: "services \<Rightarrow> chat_request \<Rightarrow> chat_response \<times> call list" where
  "POST env req =
     (case config req of
        None \<Rightarrow> (Failed 400 MissingMessageOrConfig, [])
      | Some cfg \<Rightarrow>
          if message req = [] then (Failed 400 MissingMessageOrConfig, [])
          else if shadowMode cfg then
            (let issued = searchLangCache_calls (message req) cfg @ [ChatCall (message req)] in
             case (searchLangCache env (message req) cfg, callOpenAI env (message req) cfg) of
               (Inl e, _) \<Rightarrow> (Failed 500 (Thrown e), issued)
             | (_, Inl e) \<Rightarrow> (Failed 500 (Thrown e), issued)
             | (Inr cacheRes, Inr openaiRes) \<Rightarrow>
                 (Answer \<lparr> r_content = o_content openaiRes,
                           r_cached = False,
                           r_shadowMode = Some True,
                           r_cacheHit = Some (hit cacheRes),
                           r_similarity = similarity cacheRes,
                           r_cachedQuery = cachedQuery cacheRes,
                           r_userQuery = message req,
                           r_latency = o_latency openaiRes,
                           r_tokensUsed = Some (o_tokensUsed openaiRes),
                           r_tokensSaved = Some (if hit cacheRes then o_tokensUsed openaiRes else 0) \<rparr>,
                  issued @ (if \<not> hit cacheRes
                            then storeInLangCache_calls (message req) (o_content openaiRes) cfg
                            else [])))
          else
            (let searched = searchLangCache_calls (message req) cfg in
             case searchLangCache env (message req) cfg of
               Inl e \<Rightarrow> (Failed 500 (Thrown e), searched)
             | Inr cacheRes \<Rightarrow>
                 if hit cacheRes then
                   (case response cacheRes of
                      None \<Rightarrow> (Failed 500 (Thrown TypeError), searched)
                    | Some cached \<Rightarrow>
                        (let estimatedInputTokens = estimate_tokens (message req);
                             estimatedOutputTokens = estimate_tokens cached;
                             estimatedTotalTokens = estimatedInputTokens + estimatedOutputTokens
                         in (Answer \<lparr> r_content = cached,
                                      r_cached = True,
                                      r_shadowMode = None,
                                      r_cacheHit = None,
                                      r_similarity = similarity cacheRes,
                                      r_cachedQuery = cachedQuery cacheRes,
                                      r_userQuery = message req,
                                      r_latency = cache_latency env,
                                      r_tokensUsed = None,
                                      r_tokensSaved = Some estimatedTotalTokens \<rparr>,
                             searched)))
                 else
                   (case callOpenAI env (message req) cfg of
                      Inl e \<Rightarrow> (Failed 500 (Thrown e), searched @ [ChatCall (message req)])
                    | Inr openaiRes \<Rightarrow>
                        (Answer \<lparr> r_content = o_content openaiRes,
                                  r_cached = False,
                                  r_shadowMode = None,
                                  r_cacheHit = None,
                                  r_similarity = None,
                                  r_cachedQuery = None,
                                  r_userQuery = message req,
                                  r_latency = o_latency openaiRes,
                                  r_tokensUsed = Some (o_tokensUsed openaiRes),
                                  r_tokensSaved = None \<rparr>,
                         searched @ [ChatCall (message req)]
                           @ storeInLangCache_calls (message req) (o_content openaiRes) cfg))))"

section \<open>Vector store\<close>

text \<open>
  A field of a stored hash that holds JSON text: absent (or the empty string, which is
  falsy as well), text that \<^verbatim>\<open>JSON.parse\<close> rejects, or the value it parses to.
\<close>

datatype 'a json_field = Absent | Unparsable | Parsed 'a

text \<open>The reply of \<^verbatim>\<open>HGETALL\<close> for a chunk key; the metadata is kept as an opaque value.\<close>

record chunkData =
  cd_id :: string
  cd_documentId :: string
  cd_content :: string
  cd_embedding :: "number list json_field"
  cd_metadata :: "string json_field"

datatype hgetall = CommandFailed exn | NoData | Data chunkData

text \<open>
  The key-value store behind \<^verbatim>\<open>executeRedisCommand\<close>: whether \<^verbatim>\<open>PING\<close> succeeds, the
  reply of \<^verbatim>\<open>KEYS doc:*:chunk:*\<close> and of \<^verbatim>\<open>HGETALL\<close> for each key; \<open>Inl\<close> is the
  error the command throws.
\<close>

record vector_backend =
  ping :: "exn + unit"
  chunk_keys :: "exn + string list"
  hgetall_of :: "string \<Rightarrow> hgetall"

record SearchResult =
  sr_id :: string
  sr_documentId :: string
  sr_content :: string
  score :: number
  sr_metadata :: string

text \<open>\<^verbatim>\<open>connect()\<close>: the new value of the field \<^verbatim>\<open>connected\<close>, or the error thrown.\<close>

definition connect :: "vector_backend \<Rightarrow> bool \<Rightarrow> exn + bool" where
  "connect store isConnected =
     (if isConnected then Inr isConnected
      else case ping store of Inl e \<Rightarrow> Inl e | Inr _ \<Rightarrow> Inr True)"

text \<open>
  The body of the loop of \<^verbatim>\<open>searchSimilar\<close> for one key: the results with the record of
  this key pushed when its score reaches the threshold. An error thrown while the record
  is read or parsed is caught inside the loop and the key is skipped.
\<close>

definition search_step :: "vector_backend \<Rightarrow> number list \<Rightarrow> number \<Rightarrow> SearchResult list \<Rightarrow> string \<Rightarrow> SearchResult list" where
  "search_step store queryEmbedding threshold results k =
     (case hgetall_of store k of
        CommandFailed e \<Rightarrow> results
      | NoData \<Rightarrow> results
      | Data chunk \<Rightarrow>
          (case cd_embedding chunk of
             Absent \<Rightarrow> results
           | Unparsable \<Rightarrow> results
           | Parsed emb \<Rightarrow>
               (let sim = cosineSimilarity queryEmbedding emb in
                if num_ge sim threshold then
                  (case cd_metadata chunk of
                     Unparsable \<Rightarrow> results
                   | Absent \<Rightarrow>
                       results @ [\<lparr> sr_id = cd_id chunk, sr_documentId = cd_documentId chunk,
                                    sr_content = cd_content chunk, score = sim, sr_metadata = ''{}'' \<rparr>]
                   | Parsed m \<Rightarrow>
                       results @ [\<lparr> sr_id = cd_id chunk, sr_documentId = cd_documentId chunk,
                                    sr_content = cd_content chunk, score = sim, sr_metadata = m \<rparr>])
                else results)))"

text \<open>
  \<^verbatim>\<open>Array.prototype.sort(compare)\<close>: a stable sort; \<open>x\<close> stays before a later \<open>y\<close>
  unless \<open>compare x y\<close> is greater than zero (a NaN counts as zero).
\<close>

fun insert_by :: "('a \<Rightarrow> 'a \<Rightarrow> number) \<Rightarrow> 'a \<Rightarrow> 'a list \<Rightarrow> 'a list" where
  "insert_by compare x [] = [x]"
| "insert_by compare x (y # ys) =
     (if num_gt (compare x y) (Num 0) then y # insert_by compare x ys else x # y # ys)"

definition sort_by :: "('a \<Rightarrow> 'a \<Rightarrow> number) \<Rightarrow> 'a list \<Rightarrow> 'a list" where
  "sort_by compare xs = foldr (insert_by compare) xs []"

text \<open>
  \<^verbatim>\<open>xs.slice(0, end)\<close>: the end is truncated to an integer (NaN to 0), a negative end
  counts from the end of the array, and the result is clamped to the array.
\<close>

definition to_integer :: "real \<Rightarrow> int" where
  "to_integer r = (if 0 \<le> r then \<lfloor>r\<rfloor> else \<lceil>r\<rceil>)"

definition slice_to :: "number \<Rightarrow> 'a list \<Rightarrow> 'a list" where
  "slice_to end xs =
     (case end of
        NaN \<Rightarrow> []
      | PosInf \<Rightarrow> xs
      | NegInf \<Rightarrow> []
      | Num r \<Rightarrow>
          (let len = int (length xs); k = to_integer r
           in if k < 0 then take (nat (max (len + k) 0)) xs else take (nat (min k len)) xs))"

text \<open>
  \<^verbatim>\<open>searchSimilar(queryEmbedding, limit, threshold)\<close> on a store whose field
  \<^verbatim>\<open>connected\<close> has the given value. \<^verbatim>\<open>connect()\<close> is awaited outside the \<^verbatim>\<open>try\<close>, so
  its error is thrown to the caller; a failing \<^verbatim>\<open>KEYS\<close> is caught and gives no result.
\<close>

definition searchSimilar ::
  "vector_backend \<Rightarrow> bool \<Rightarrow> number list \<Rightarrow> number \<Rightarrow> number \<Rightarrow> exn + SearchResult list" where
  "searchSimilar store isConnected queryEmbedding limit threshold =
     (case connect store isConnected of
        Inl e \<Rightarrow> Inl e
      | Inr _ \<Rightarrow>
          try_catch
            (case chunk_keys store of
               Inl e \<Rightarrow> Inl e
             | Inr documentKeys \<Rightarrow>
                 Inr (slice_to limit
                        (sort_by (\<lambda>a b. num_sub (score b) (score a))
                           (foldl (search_step store queryEmbedding threshold) [] documentKeys))))
            (\<lambda>error. Inr []))"

section \<open>Document ingestion\<close>







subsection \<open>The RAG system\<close>

















subsection \<open>The document-processing endpoint\<close>








section \<open>Sentences the chunkers keep\<close>

text \<open>
  Both loops trim each sentence and skip it when nothing is left
  (\<^verbatim>\<open>const sentence = sentences[i].trim(); if (!sentence) continue\<close>): these are the
  trimmed sentences that the loop does not skip, in order.
\<close>

definition kept_sentences :: "string list \<Rightarrow> string list" where
  "kept_sentences ss = filter (\<lambda>t. t \<noteq> []) (map trim ss)"

section \<open>Loop invariants of the chunkers\<close>

text \<open>
  What holds of the variables of the chunking loops after every iteration: the chunks
  pushed so far carry the indices below the next index, their start offsets are in
  order, and none lies beyond the running offset.
\<close>

definition chunker_inv :: "chunker_state \<Rightarrow> bool" where
  "chunker_inv st =
     (map chunkIndex (chunks st) = [0..<nextIndex st]
      \<and> sorted (map (\<lambda>c. startChar (metadata c)) (chunks st))
      \<and> (\<forall>c\<in>set (chunks st). startChar (metadata c) \<le> nextStart st))"

definition process_inv :: "process_state \<Rightarrow> bool" where
  "process_inv st =
     (map pc_chunkIndex (p_chunks st) = [0..<p_chunkIndex st]
      \<and> sorted (map (\<lambda>c. pm_startChar (pc_metadata c)) (p_chunks st))
      \<and> (\<forall>c\<in>set (p_chunks st). pm_startChar (pc_metadata c) \<le> p_startChar st))"

section \<open>Scenarios\<close>

text \<open>Concrete configurations, services and stores on which the properties below are run.\<close>

definition demo_config :: "bool \<Rightarrow> Config" where
  "demo_config shadow =
     \<lparr> openaiKey = ''sk-demo'', langcacheUrl = ''https://cache.example'', cacheId = ''cache1'',
       serviceKey = ''svc'', shadowMode = shadow \<rparr>"

definition demo_services :: "cache_entry list http \<Rightarrow> openai_data http \<Rightarrow> services" where
  "demo_services searchReply chatReply =
     \<lparr> langcache_search = (\<lambda>url key prompt. searchReply),
       langcache_store = (\<lambda>url key prompt resp. Reply 200 (Some ())),
       openai_chat = (\<lambda>key msg. chatReply),
       openai_latency = 850,
       cache_latency = 12 \<rparr>"

definition demo_entry :: "string \<Rightarrow> number \<Rightarrow> string \<Rightarrow> cache_entry" where
  "demo_entry resp sim prompt =
     \<lparr> ce_response = resp, ce_similarity = Some sim, ce_prompt = Some prompt \<rparr>"

definition demo_generation :: "string \<Rightarrow> nat \<Rightarrow> openai_data http" where
  "demo_generation txt tokens = Reply 200 (Some \<lparr> choices = Some [txt], total_tokens = Some tokens \<rparr>)"

definition demo_chunk :: "string \<Rightarrow> number list \<Rightarrow> hgetall" where
  "demo_chunk name emb =
     Data \<lparr> cd_id = name, cd_documentId = ''doc1'', cd_content = ''text of '' @ name,
            cd_embedding = Parsed emb, cd_metadata = Absent \<rparr>"

definition demo_store :: vector_backend where
  "demo_store =
     \<lparr> ping = Inr (),
       chunk_keys = Inr [''doc:doc1:chunk:a'', ''doc:doc1:chunk:b'', ''doc:doc1:chunk:c''],
       hgetall_of = (\<lambda>k. if k = ''doc:doc1:chunk:a'' then demo_chunk ''a'' [Num 3, Num 4]
                          else if k = ''doc:doc1:chunk:b'' then demo_chunk ''b'' [Num 4, Num 3]
                          else if k = ''doc:doc1:chunk:c'' then demo_chunk ''c'' [Num 0, Num 0]
                          else NoData) \<rparr>"





section \<open>Properties of the cosine similarity\<close>














text \<open>
  C6. For vectors of different lengths both cosine-similarity methods return 0: the
  length test comes first and the scoring loop is not entered.
\<close>

theorem C6_cosineSimilarity_length_mismatch:
  "length a \<noteq> length b \<Longrightarrow>
   cosineSimilarity a b = Num 0 \<and> rag_cosineSimilarity a b = Num 0"
  by (simp add: cosineSimilarity_def rag_cosineSimilarity_def)

theorem C6_cosineSimilarity_length_mismatch_witness:
  "length [Num 1, Num 2] \<noteq> length [Num 3]
   \<and> cosineSimilarity [Num 1, Num 2] [Num 3] = Num 0
   \<and> rag_cosineSimilarity [Num 1, Num 2] [Num 3] = Num 0"
  using C6_cosineSimilarity_length_mismatch [of "[Num 1, Num 2]" "[Num 3]"] by simp

section \<open>Properties of the semantic cache and the query router\<close>

lemma hit_miss: "hit miss = False"
  by (simp add: miss_def)

text \<open>The \<^verbatim>\<open>catch\<close> of \<^verbatim>\<open>searchLangCache\<close> turns every throw into a miss, so the
  function always returns.\<close>

lemma searchLangCache_returns: "\<exists>r. searchLangCache env query cfg = Inr r"
  by (cases "searchLangCache_try env query cfg") (simp_all add: searchLangCache_def try_catch_def)

lemma searchLangCache_hit_response:
  assumes "searchLangCache env query cfg = Inr r" and "hit r"
  shows "\<exists>status e es.
           langcacheUrl cfg \<noteq> [] \<and> cacheId cfg \<noteq> [] \<and> serviceKey cfg \<noteq> []
           \<and> langcache_search env (search_url cfg) (serviceKey cfg) (trim query) = Reply status (Some (e # es))
           \<and> ok status \<and> ce_response e \<noteq> [] \<and> response r = Some (ce_response e)"
  using assms
  by (auto simp: searchLangCache_def try_catch_def searchLangCache_try_def hit_miss
           split: if_splits http.splits option.splits list.splits sum.splits)

text \<open>
  C1. In shadow mode, for a request that carries a message and a configuration and whose
  generation call succeeds, the reply is the generation result with \<open>cached = False\<close>;
  the result of the cache search appears only in the fields \<open>cacheHit\<close>, \<open>similarity\<close>
  and \<open>cachedQuery\<close>, and \<open>tokensSaved\<close> is the tokens used by the generation call when the
  cache search hit and 0 when it missed. The generation request is among those issued.
\<close>

theorem C1_shadow_mode_serves_generation:
  assumes "config req = Some cfg" and "message req \<noteq> []" and "shadowMode cfg"
    and "callOpenAI env (message req) cfg = Inr gen"
  shows "\<exists>cacheRes calls.
           searchLangCache env (message req) cfg = Inr cacheRes
           \<and> POST env req =
               (Answer \<lparr> r_content = o_content gen,
                         r_cached = False,
                         r_shadowMode = Some True,
                         r_cacheHit = Some (hit cacheRes),
                         r_similarity = similarity cacheRes,
                         r_cachedQuery = cachedQuery cacheRes,
                         r_userQuery = message req,
                         r_latency = o_latency gen,
                         r_tokensUsed = Some (o_tokensUsed gen),
                         r_tokensSaved = Some (if hit cacheRes then o_tokensUsed gen else 0) \<rparr>, calls)
           \<and> ChatCall (message req) \<in> set calls"
proof -
  obtain cacheRes where c: "searchLangCache env (message req) cfg = Inr cacheRes"
    using searchLangCache_returns by blast
  show ?thesis
    using assms c by (simp add: POST_def Let_def)
qed

text \<open>The scenario of a shadow-mode turn whose cache search hits with similarity 0.95
  while the generation service answers \<open>G2\<close> with 10 tokens, and the same turn with a
  cache miss.\<close>

theorem C1_shadow_mode_serves_generation_witness:
  "fst (POST (demo_services (Reply 200 (Some [demo_entry ''R'' (Num 0.95) ''Q''])) (demo_generation ''G2'' 10))
          \<lparr> message = ''Q'', config = Some (demo_config True) \<rparr>)
     = Answer \<lparr> r_content = ''G2'', r_cached = False, r_shadowMode = Some True,
                r_cacheHit = Some True, r_similarity = Some (Num 0.95), r_cachedQuery = Some ''Q'',
                r_userQuery = ''Q'', r_latency = 850, r_tokensUsed = Some 10, r_tokensSaved = Some 10 \<rparr>
   \<and> fst (POST (demo_services (Reply 404 None) (demo_generation ''G2'' 10))
          \<lparr> message = ''Q'', config = Some (demo_config True) \<rparr>)
     = Answer \<lparr> r_content = ''G2'', r_cached = False, r_shadowMode = Some True,
                r_cacheHit = Some False, r_similarity = None, r_cachedQuery = None,
                r_userQuery = ''Q'', r_latency = 850, r_tokensUsed = Some 10, r_tokensSaved = Some 0 \<rparr>"
proof -
  let ?gen = "\<lparr> o_content = ''G2'', o_latency = 850, o_tokensUsed = 10 \<rparr>"
  let ?req = "\<lparr> message = ''Q'', config = Some (demo_config True) \<rparr>"
  let ?hit = "demo_services (Reply 200 (Some [demo_entry ''R'' (Num 0.95) ''Q''])) (demo_generation ''G2'' 10)"
  let ?miss = "demo_services (Reply 404 None) (demo_generation ''G2'' 10)"
  have cfg: "config ?req = Some (demo_config True)" "message ?req \<noteq> []" "shadowMode (demo_config True)"
    by (simp_all add: demo_config_def)
  have g1: "callOpenAI ?hit (message ?req) (demo_config True) = Inr ?gen"
    by (simp add: callOpenAI_def demo_services_def demo_generation_def ok_def)
  have g2: "callOpenAI ?miss (message ?req) (demo_config True) = Inr ?gen"
    by (simp add: callOpenAI_def demo_services_def demo_generation_def ok_def)
  have s1: "searchLangCache ?hit ''Q'' (demo_config True)
              = Inr \<lparr> hit = True, response = Some ''R'', similarity = Some (Num 0.95),
                      cachedQuery = Some ''Q'' \<rparr>"
    by (simp add: searchLangCache_def searchLangCache_try_def try_catch_def demo_services_def
          demo_config_def demo_entry_def ok_def or_zero_def)
  have s2: "searchLangCache ?miss ''Q'' (demo_config True) = Inr miss"
    by (simp add: searchLangCache_def searchLangCache_try_def try_catch_def demo_services_def
          demo_config_def ok_def)
  show ?thesis
    using C1_shadow_mode_serves_generation [OF cfg g1] C1_shadow_mode_serves_generation [OF cfg g2]
      s1 s2
    by (auto simp: miss_def)
qed

text \<open>
  C2. In normal mode, for a request that carries a message and a configuration and on
  which the cache search hits, the reply is the cached response with \<open>cached = True\<close>,
  the similarity and the matched prompt of the hit, and
  \<open>tokensSaved = \<lceil>length message / 4\<rceil> + \<lceil>length cached / 4\<rceil>\<close>; no request to the
  generation service is among those issued.
\<close>

theorem C2_normal_mode_cache_hit:
  assumes "config req = Some cfg" and "message req \<noteq> []" and "\<not> shadowMode cfg"
    and "searchLangCache env (message req) cfg = Inr cacheRes" and "hit cacheRes"
  shows "\<exists>cached calls.
           response cacheRes = Some cached
           \<and> POST env req =
               (Answer \<lparr> r_content = cached,
                         r_cached = True,
                         r_shadowMode = None,
                         r_cacheHit = None,
                         r_similarity = similarity cacheRes,
                         r_cachedQuery = cachedQuery cacheRes,
                         r_userQuery = message req,
                         r_latency = cache_latency env,
                         r_tokensUsed = None,
                         r_tokensSaved = Some (nat \<lceil>real (length (message req)) / 4\<rceil>
                                               + nat \<lceil>real (length cached) / 4\<rceil>) \<rparr>, calls)
           \<and> (\<forall>q. ChatCall q \<notin> set calls)"
proof -
  obtain cached where r: "response cacheRes = Some cached"
    using searchLangCache_hit_response[OF assms(4,5)] by blast
  show ?thesis
    using assms r by (simp add: POST_def Let_def estimate_tokens_def searchLangCache_calls_def)
qed

text \<open>The scenario of a cache hit with response \<open>R\<close> and similarity 0.92 for the query
  \<open>Q\<close>: one search request is issued and nothing else.\<close>

theorem C2_normal_mode_cache_hit_witness:
  "POST (demo_services (Reply 200 (Some [demo_entry ''R'' (Num 0.92) ''Q''])) NoConnection)
        \<lparr> message = ''Q'', config = Some (demo_config False) \<rparr>
     = (Answer \<lparr> r_content = ''R'', r_cached = True, r_shadowMode = None, r_cacheHit = None,
                 r_similarity = Some (Num 0.92), r_cachedQuery = Some ''Q'', r_userQuery = ''Q'',
                 r_latency = 12, r_tokensUsed = None, r_tokensSaved = Some 2 \<rparr>,
        [SearchCall ''https://cache.example/v1/caches/cache1/entries/search'' ''Q''])"
proof -
  let ?req = "\<lparr> message = ''Q'', config = Some (demo_config False) \<rparr>"
  let ?env = "demo_services (Reply 200 (Some [demo_entry ''R'' (Num 0.92) ''Q''])) NoConnection"
  let ?res = "\<lparr> hit = True, response = Some ''R'', similarity = Some (Num 0.92), cachedQuery = Some ''Q'' \<rparr>"
  have cfg: "config ?req = Some (demo_config False)" "message ?req \<noteq> []" "\<not> shadowMode (demo_config False)"
    by (simp_all add: demo_config_def)
  have s: "searchLangCache ?env (message ?req) (demo_config False) = Inr ?res"
    by (simp add: searchLangCache_def searchLangCache_try_def try_catch_def demo_services_def
          demo_config_def demo_entry_def ok_def or_zero_def)
  have h: "hit ?res" by simp
  have calls: "snd (POST ?env ?req) = [SearchCall ''https://cache.example/v1/caches/cache1/entries/search'' ''Q'']"
    using s by (simp add: POST_def Let_def searchLangCache_calls_def search_url_def demo_config_def
                  trim_def is_space_def)
  have env: "cache_latency ?env = 12" by (simp add: demo_services_def)
  have quarter: "\<lceil>1 / 4 :: real\<rceil> = 1" by (rule ceiling_unique) simp_all
  show ?thesis
    using C2_normal_mode_cache_hit [OF cfg s h] calls env by (auto simp: quarter)
qed

text \<open>
  C3. The cache search never throws: it always returns a result, which is the miss
  \<open>{hit: false}\<close> when a configuration field is missing, when the service cannot be
  reached, when its reply has a status other than success, when the reply is not JSON,
  when it has no entry, or when its first entry has no response. A hit is returned only
  for a successful reply whose first entry carries a response, and it carries that response.
\<close>

theorem C3_searchLangCache_fails_open:
  "\<exists>r. searchLangCache env query cfg = Inr r
     \<and> ((langcacheUrl cfg = [] \<or> cacheId cfg = [] \<or> serviceKey cfg = []) \<longrightarrow> r = miss)
     \<and> (langcache_search env (search_url cfg) (serviceKey cfg) (trim query) = NoConnection \<longrightarrow> r = miss)
     \<and> (\<forall>status body. langcache_search env (search_url cfg) (serviceKey cfg) (trim query) = Reply status body
            \<and> \<not> ok status \<longrightarrow> r = miss)
     \<and> (\<forall>status. langcache_search env (search_url cfg) (serviceKey cfg) (trim query) = Reply status None
            \<longrightarrow> r = miss)
     \<and> (\<forall>status. langcache_search env (search_url cfg) (serviceKey cfg) (trim query) = Reply status (Some [])
            \<longrightarrow> r = miss)
     \<and> (\<forall>status e es. langcache_search env (search_url cfg) (serviceKey cfg) (trim query) = Reply status (Some (e # es))
            \<and> ce_response e = [] \<longrightarrow> r = miss)
     \<and> (hit r \<longrightarrow> (\<exists>status e es.
            langcache_search env (search_url cfg) (serviceKey cfg) (trim query) = Reply status (Some (e # es))
            \<and> ok status \<and> ce_response e \<noteq> [] \<and> response r = Some (ce_response e)))"
proof -
  let ?reply = "langcache_search env (search_url cfg) (serviceKey cfg) (trim query)"
  obtain r where r: "searchLangCache env query cfg = Inr r"
    using searchLangCache_returns by blast
  have "hit r \<longrightarrow> (\<exists>status e es. ?reply = Reply status (Some (e # es))
            \<and> ok status \<and> ce_response e \<noteq> [] \<and> response r = Some (ce_response e))"
    using searchLangCache_hit_response[OF r] by blast
  moreover have "(langcacheUrl cfg = [] \<or> cacheId cfg = [] \<or> serviceKey cfg = []) \<longrightarrow> r = miss"
    using r by (auto simp: searchLangCache_def try_catch_def searchLangCache_try_def split: if_splits)
  moreover have "?reply = NoConnection \<longrightarrow> r = miss"
    using r by (auto simp: searchLangCache_def try_catch_def searchLangCache_try_def split: if_splits)
  moreover have "\<forall>status body. ?reply = Reply status body \<and> \<not> ok status \<longrightarrow> r = miss"
    using r by (auto simp: searchLangCache_def try_catch_def searchLangCache_try_def split: if_splits)
  moreover have "\<forall>status. ?reply = Reply status None \<longrightarrow> r = miss"
    using r by (auto simp: searchLangCache_def try_catch_def searchLangCache_try_def split: if_splits)
  moreover have "\<forall>status. ?reply = Reply status (Some []) \<longrightarrow> r = miss"
    using r by (auto simp: searchLangCache_def try_catch_def searchLangCache_try_def split: if_splits)
  moreover have "\<forall>status e es. ?reply = Reply status (Some (e # es)) \<and> ce_response e = [] \<longrightarrow> r = miss"
    using r by (auto simp: searchLangCache_def try_catch_def searchLangCache_try_def split: if_splits)
  ultimately show ?thesis using r by blast
qed

text \<open>A search with no connection, one answered with status 404, one answered with an
  empty list, one with an incomplete configuration, and one answered with an entry.\<close>

theorem C3_searchLangCache_fails_open_witness:
  "searchLangCache (demo_services NoConnection NoConnection) ''Q'' (demo_config False) = Inr miss
   \<and> searchLangCache (demo_services (Reply 404 None) NoConnection) ''Q'' (demo_config False) = Inr miss
   \<and> searchLangCache (demo_services (Reply 200 (Some [])) NoConnection) ''Q'' (demo_config False) = Inr miss
   \<and> searchLangCache (demo_services (Reply 200 (Some [demo_entry ''R'' (Num 1) ''Q''])) NoConnection) ''Q''
        ((demo_config False) \<lparr> serviceKey := [] \<rparr>) = Inr miss
   \<and> (\<exists>r. searchLangCache (demo_services (Reply 200 (Some [demo_entry ''R'' (Num 1) ''Q''])) NoConnection) ''Q''
             (demo_config False) = Inr r
          \<and> hit r \<and> response r = Some ''R'')"
proof -
  have 1: "searchLangCache (demo_services NoConnection NoConnection) ''Q'' (demo_config False) = Inr miss"
    using C3_searchLangCache_fails_open [of "demo_services NoConnection NoConnection" "''Q''" "demo_config False"]
    by (auto simp: demo_services_def)
  have 2: "searchLangCache (demo_services (Reply 404 None) NoConnection) ''Q'' (demo_config False) = Inr miss"
    using C3_searchLangCache_fails_open [of "demo_services (Reply 404 None) NoConnection" "''Q''" "demo_config False"]
    by (auto simp: demo_services_def)
  have 3: "searchLangCache (demo_services (Reply 200 (Some [])) NoConnection) ''Q'' (demo_config False) = Inr miss"
    using C3_searchLangCache_fails_open [of "demo_services (Reply 200 (Some [])) NoConnection" "''Q''" "demo_config False"]
    by (auto simp: demo_services_def)
  have 4: "searchLangCache (demo_services (Reply 200 (Some [demo_entry ''R'' (Num 1) ''Q''])) NoConnection) ''Q''
        ((demo_config False) \<lparr> serviceKey := [] \<rparr>) = Inr miss"
    using C3_searchLangCache_fails_open [of "demo_services (Reply 200 (Some [demo_entry ''R'' (Num 1) ''Q''])) NoConnection"
        "''Q''" "(demo_config False) \<lparr> serviceKey := [] \<rparr>"]
    by auto
  have 5: "searchLangCache (demo_services (Reply 200 (Some [demo_entry ''R'' (Num 1) ''Q''])) NoConnection) ''Q''
             (demo_config False)
           = Inr \<lparr> hit = True, response = Some ''R'', similarity = Some (Num 1), cachedQuery = Some ''Q'' \<rparr>"
    by (simp add: searchLangCache_def searchLangCache_try_def try_catch_def demo_services_def
          demo_config_def demo_entry_def ok_def or_zero_def)
  show ?thesis using 1 2 3 4 5 by simp
qed

section \<open>Properties of the vector search\<close>

lemma num_ge_trans: "num_ge a b \<Longrightarrow> num_ge b c \<Longrightarrow> num_ge a c"
  by (cases a; cases b; cases c) auto

lemma num_ge_not_NaN: "num_ge a b \<Longrightarrow> a \<noteq> NaN"
  by (cases a) auto

text \<open>What the sign of \<^verbatim>\<open>b.score - a.score\<close> tells about the two scores.\<close>

lemma compare_gt_imp_ge: "num_gt (num_sub b a) (Num 0) \<Longrightarrow> num_ge b a"
  by (cases a; cases b) (auto simp: num_sub_def)

lemma compare_not_gt_imp_ge:
  "a \<noteq> NaN \<Longrightarrow> b \<noteq> NaN \<Longrightarrow> \<not> num_gt (num_sub b a) (Num 0) \<Longrightarrow> num_ge a b"
  by (cases a; cases b) (auto simp: num_sub_def)

lemma set_insert_by: "set (insert_by cmp x ys) = insert x (set ys)"
  by (induction ys) auto

lemma set_sort_by: "set (sort_by cmp xs) = set xs"
  by (induction xs) (auto simp: sort_by_def set_insert_by)

lemma sorted_insert_by:
  assumes "sorted_wrt (\<lambda>a b. num_ge (score a) (score b)) ys"
    and "score x \<noteq> NaN" and "\<forall>y\<in>set ys. score y \<noteq> NaN"
  shows "sorted_wrt (\<lambda>a b. num_ge (score a) (score b))
           (insert_by (\<lambda>a b. num_sub (score b) (score a)) x ys)"
  using assms
proof (induction ys)
  case Nil
  then show ?case by simp
next
  case (Cons y ys)
  let ?ins = "insert_by (\<lambda>a b. num_sub (score b) (score a)) x ys"
  show ?case
  proof (cases "num_gt (num_sub (score y) (score x)) (Num 0)")
    case True
    then have yx: "num_ge (score y) (score x)" by (rule compare_gt_imp_ge)
    have "sorted_wrt (\<lambda>a b. num_ge (score a) (score b)) ?ins"
      using Cons by simp
    moreover have "\<forall>z\<in>set ?ins. num_ge (score y) (score z)"
      using Cons.prems(1) yx by (auto simp: set_insert_by)
    ultimately show ?thesis using True by simp
  next
    case False
    then have xy: "num_ge (score x) (score y)"
      using Cons.prems by (intro compare_not_gt_imp_ge) auto
    have "\<forall>z\<in>set ys. num_ge (score x) (score z)"
      using Cons.prems(1) xy by (auto intro: num_ge_trans)
    then show ?thesis using False xy Cons.prems(1) by simp
  qed
qed

lemma sorted_sort_by:
  "\<forall>x\<in>set xs. score x \<noteq> NaN \<Longrightarrow>
   sorted_wrt (\<lambda>a b. num_ge (score a) (score b)) (sort_by (\<lambda>a b. num_sub (score b) (score a)) xs)"
proof (induction xs)
  case Nil
  then show ?case by (simp add: sort_by_def)
next
  case (Cons x xs)
  have "sorted_wrt (\<lambda>a b. num_ge (score a) (score b))
          (insert_by (\<lambda>a b. num_sub (score b) (score a)) x (sort_by (\<lambda>a b. num_sub (score b) (score a)) xs))"
    using Cons by (intro sorted_insert_by) (auto simp: set_sort_by)
  then show ?case by (simp add: sort_by_def)
qed

lemma search_step_threshold:
  "\<forall>r\<in>set results. num_ge (score r) threshold \<Longrightarrow>
   \<forall>r\<in>set (search_step store q threshold results k). num_ge (score r) threshold"
  by (auto simp: search_step_def Let_def split: hgetall.splits json_field.splits)

lemma search_loop_threshold:
  "\<forall>r\<in>set results. num_ge (score r) threshold \<Longrightarrow>
   \<forall>r\<in>set (foldl (search_step store q threshold) results ks). num_ge (score r) threshold"
proof (induction ks arbitrary: results)
  case Nil
  then show ?case by simp
next
  case (Cons k ks)
  show ?case
    using Cons.IH[OF search_step_threshold[OF Cons.prems]] by simp
qed

lemma slice_to_take: "\<exists>n. slice_to e xs = take n xs"
proof (cases e)
  case (Num r)
  then show ?thesis by (auto simp: slice_to_def Let_def)
next
  case PosInf
  then have "slice_to e xs = take (length xs) xs" by (simp add: slice_to_def)
  then show ?thesis by blast
next
  case NegInf
  then have "slice_to e xs = take 0 xs" by (simp add: slice_to_def)
  then show ?thesis by blast
next
  case NaN
  then have "slice_to e xs = take 0 xs" by (simp add: slice_to_def)
  then show ?thesis by blast
qed

lemma length_slice_to:
  assumes "num_ge limit (Num 0)"
  shows "num_ge limit (Num (real (length (slice_to limit xs))))"
proof (cases limit)
  case (Num r)
  with assms have r: "0 \<le> r" by simp
  then have k: "0 \<le> to_integer r" by (simp add: to_integer_def)
  have "real (length (slice_to limit xs)) \<le> real_of_int (to_integer r)"
    using Num k by (simp add: slice_to_def Let_def)
  also have "\<dots> \<le> r" using r by (simp add: to_integer_def)
  finally show ?thesis using Num by simp
next
  case PosInf
  then show ?thesis by simp
next
  case NegInf
  with assms show ?thesis by simp
next
  case NaN
  with assms show ?thesis by simp
qed

lemma to_integer_minus_one: "to_integer (- 1) = - 1"
  by (simp add: to_integer_def ceiling_minus)

lemma sqrt_25: "sqrt 25 = 5"
  using real_sqrt_abs2[of 5] by simp

lemma demo_scores:
  "cosineSimilarity [Num 4, Num 3] [Num 3, Num 4] = Num (24 / 25)"
  "cosineSimilarity [Num 4, Num 3] [Num 4, Num 3] = Num 1"
  "cosineSimilarity [Num 4, Num 3] [Num 0, Num 0] = Num 0"
  by (simp_all add: cosineSimilarity_def sqrt_25)

text \<open>
  C4, as the code has it. When the store can be reached and the limit is at least 0,
  \<^verbatim>\<open>searchSimilar\<close> returns a sequence whose length is at most the limit, whose scores
  are in non-increasing order and all reach the threshold. (A limit below 0 makes
  \<^verbatim>\<open>slice(0, limit)\<close> count from the end of the sorted results.)
\<close>

theorem C4_searchSimilar_bounded_sorted:
  assumes "connect store isConnected = Inr c" and "num_ge limit (Num 0)"
  shows "\<exists>rs. searchSimilar store isConnected q limit threshold = Inr rs
           \<and> num_ge limit (Num (real (length rs)))
           \<and> sorted_wrt (\<lambda>a b. num_ge (score a) (score b)) rs
           \<and> (\<forall>r\<in>set rs. num_ge (score r) threshold)"
proof (cases "chunk_keys store")
  case (Inl e)
  then have "searchSimilar store isConnected q limit threshold = Inr []"
    using assms(1) by (simp add: searchSimilar_def try_catch_def)
  then show ?thesis using assms(2) by simp
next
  case (Inr ks)
  define found where "found = foldl (search_step store q threshold) [] ks"
  define sorted_found where "sorted_found = sort_by (\<lambda>a b. num_sub (score b) (score a)) found"
  have res: "searchSimilar store isConnected q limit threshold = Inr (slice_to limit sorted_found)"
    using assms(1) Inr by (simp add: searchSimilar_def try_catch_def found_def sorted_found_def)
  have thr: "\<forall>r\<in>set found. num_ge (score r) threshold"
    unfolding found_def by (rule search_loop_threshold) simp
  then have "\<forall>r\<in>set found. score r \<noteq> NaN"
    by (auto dest: num_ge_not_NaN)
  then have srt: "sorted_wrt (\<lambda>a b. num_ge (score a) (score b)) sorted_found"
    unfolding sorted_found_def by (rule sorted_sort_by)
  obtain n where n: "slice_to limit sorted_found = take n sorted_found"
    using slice_to_take by blast
  have "sorted_wrt (\<lambda>a b. num_ge (score a) (score b)) (slice_to limit sorted_found)"
    unfolding n using srt by (rule sorted_wrt_take)
  moreover have "\<forall>r\<in>set (slice_to limit sorted_found). num_ge (score r) threshold"
    unfolding n using thr by (auto simp: sorted_found_def set_sort_by dest: in_set_takeD)
  ultimately show ?thesis
    using res length_slice_to[OF assms(2)] by simp
qed

text \<open>A search of three stored chunks with limit 5 and threshold 0.7: two chunks reach
  the threshold and come back best first.\<close>

theorem C4_searchSimilar_bounded_sorted_witness:
  "connect demo_store False = Inr True \<and> num_ge (Num 5) (Num 0)
   \<and> (\<exists>rs. searchSimilar demo_store False [Num 4, Num 3] (Num 5) (Num 0.7) = Inr rs
          \<and> map sr_id rs = [''b'', ''a''] \<and> map score rs = [Num 1, Num (24 / 25)]
          \<and> num_ge (Num 5) (Num (real (length rs)))
          \<and> sorted_wrt (\<lambda>a b. num_ge (score a) (score b)) rs)"
proof -
  have c: "connect demo_store False = Inr True" by (simp add: connect_def demo_store_def)
  have l: "num_ge (Num 5) (Num 0)" by simp
  obtain rs where rs: "searchSimilar demo_store False [Num 4, Num 3] (Num 5) (Num 0.7) = Inr rs"
      "num_ge (Num 5) (Num (real (length rs)))" "sorted_wrt (\<lambda>a b. num_ge (score a) (score b)) rs"
    using C4_searchSimilar_bounded_sorted [OF c l, of "[Num 4, Num 3]" "Num 0.7"] by blast
  have "searchSimilar demo_store False [Num 4, Num 3] (Num 5) (Num 0.7)
          = Inr [\<lparr> sr_id = ''b'', sr_documentId = ''doc1'', sr_content = ''text of b'', score = Num 1,
                    sr_metadata = ''{}'' \<rparr>,
                 \<lparr> sr_id = ''a'', sr_documentId = ''doc1'', sr_content = ''text of a'', score = Num (24 / 25),
                    sr_metadata = ''{}'' \<rparr>]"
    by (simp add: searchSimilar_def connect_def try_catch_def search_step_def demo_store_def
          demo_chunk_def demo_scores sort_by_def num_sub_def slice_to_def to_integer_def)
  with rs have ids: "map sr_id rs = [''b'', ''a'']" "map score rs = [Num 1, Num (24 / 25)]" by auto
  have "\<exists>rs. searchSimilar demo_store False [Num 4, Num 3] (Num 5) (Num 0.7) = Inr rs
          \<and> map sr_id rs = [''b'', ''a''] \<and> map score rs = [Num 1, Num (24 / 25)]
          \<and> num_ge (Num 5) (Num (real (length rs)))
          \<and> sorted_wrt (\<lambda>a b. num_ge (score a) (score b)) rs"
    using rs ids by (intro exI[of _ rs] conjI)
  with c l show ?thesis by (intro conjI)
qed

text \<open>With the limit \<open>-1\<close> the same search returns one record: more than the limit.\<close>

theorem C4_searchSimilar_negative_limit_counterexample:
  "searchSimilar demo_store False [Num 4, Num 3] (Num (- 1)) (Num 0.7)
     = Inr [\<lparr> sr_id = ''b'', sr_documentId = ''doc1'', sr_content = ''text of b'', score = Num 1,
               sr_metadata = ''{}'' \<rparr>]
   \<and> \<not> num_ge (Num (- 1)) (Num (real (length [''b''])))"
  by (simp add: searchSimilar_def connect_def try_catch_def search_step_def demo_store_def
        demo_chunk_def demo_scores sort_by_def num_sub_def slice_to_def to_integer_minus_one)

section \<open>Properties of the chunkers\<close>

lemma make_chunk_fields [simp]:
  "chunkIndex (make_chunk docId st) = nextIndex st"
  "startChar (metadata (make_chunk docId st)) = nextStart st"
  by (simp_all add: make_chunk_def)

lemma chunker_inv_close:
  assumes "chunker_inv st" and "nextStart st \<le> n"
  shows "chunker_inv \<lparr> chunks = chunks st @ [make_chunk docId st], currentChunk = cur,
                       nextIndex = nextIndex st + 1, nextStart = n \<rparr>"
  using assms by (auto simp: chunker_inv_def sorted_append)

lemma chunker_inv_step:
  assumes "chunker_inv st"
  shows "chunker_inv (chunk_step chunkSize chunkOverlap docId st s)"
proof -
  have keep: "chunker_inv (st \<lparr> currentChunk := cur \<rparr>)" for cur
    using assms by (simp add: chunker_inv_def)
  have close: "chunker_inv \<lparr> chunks = chunks st @ [make_chunk docId st], currentChunk = cur,
                       nextIndex = nextIndex st + 1, nextStart = nextStart st + k \<rparr>" for cur k
    using assms by (intro chunker_inv_close) simp_all
  show ?thesis
    unfolding chunk_step_def Let_def
    using assms keep close by (simp only: split: if_split) blast
qed

lemma chunker_inv_loop:
  "chunker_inv st \<Longrightarrow> chunker_inv (foldl (chunk_step chunkSize chunkOverlap docId) st ss)"
  by (induction ss arbitrary: st) (simp_all add: chunker_inv_step)

lemma chunker_inv_init:
  "chunker_inv \<lparr> chunks = [], currentChunk = [], nextIndex = 0, nextStart = 0 \<rparr>"
  by (simp add: chunker_inv_def)

lemma chunkDocument_indices:
  "map chunkIndex (chunkDocument chunkSize chunkOverlap txt docId)
     = [0..<length (chunkDocument chunkSize chunkOverlap txt docId)]
   \<and> sorted (map (\<lambda>c. startChar (metadata c)) (chunkDocument chunkSize chunkOverlap txt docId))"
proof -
  define st where "st = foldl (chunk_step chunkSize chunkOverlap docId)
     \<lparr> chunks = [], currentChunk = [], nextIndex = 0, nextStart = 0 \<rparr> (rag_sentences txt)"
  have inv: "chunker_inv st"
    unfolding st_def by (rule chunker_inv_loop) (rule chunker_inv_init)
  then have "length (map chunkIndex (chunks st)) = length [0..<nextIndex st]"
    by (simp only: chunker_inv_def)
  then have len: "length (chunks st) = nextIndex st"
    by simp
  have res: "chunkDocument chunkSize chunkOverlap txt docId
      = (if length (trim (currentChunk st)) > 0 then chunks st @ [make_chunk docId st] else chunks st)"
    by (simp add: chunkDocument_def Let_def st_def)
  show ?thesis
    using inv len unfolding res by (auto simp: chunker_inv_def sorted_append)
qed

lemma process_make_chunk_fields [simp]:
  "pc_chunkIndex (process_make_chunk docId st) = p_chunkIndex st"
  "pm_startChar (pc_metadata (process_make_chunk docId st)) = p_startChar st"
  by (simp_all add: process_make_chunk_def)

lemma process_inv_close:
  assumes "process_inv st" and "p_startChar st \<le> n"
  shows "process_inv \<lparr> p_chunks = p_chunks st @ [process_make_chunk docId st], p_currentChunk = cur,
                       p_chunkIndex = p_chunkIndex st + 1, p_startChar = n \<rparr>"
  using assms by (auto simp: process_inv_def sorted_append)

lemma process_inv_step:
  assumes "process_inv st"
  shows "process_inv (process_chunk_step maxChunkSize overlapSize docId st s)"
proof -
  have keep: "process_inv (st \<lparr> p_currentChunk := cur \<rparr>)" for cur
    using assms by (simp add: process_inv_def)
  have close: "process_inv \<lparr> p_chunks = p_chunks st @ [process_make_chunk docId st], p_currentChunk = cur,
                       p_chunkIndex = p_chunkIndex st + 1, p_startChar = nat (int (p_startChar st) + (int (length (a @ '' '' @ b)) - (int (length a) + int (length b)))) \<rparr>" for cur a b
    using assms by (intro process_inv_close) simp_all
  show ?thesis
    unfolding process_chunk_step_def Let_def
    using assms keep close by (simp only: split: if_split) blast
qed

lemma process_inv_loop:
  "process_inv st \<Longrightarrow> process_inv (foldl (process_chunk_step m v docId) st ss)"
  by (induction ss arbitrary: st) (simp_all add: process_inv_step)

lemma process_chunkDocument_indices:
  "map pc_chunkIndex (process_chunkDocument txt docId) = [0..<length (process_chunkDocument txt docId)]
   \<and> sorted (map (\<lambda>c. pm_startChar (pc_metadata c)) (process_chunkDocument txt docId))"
proof -
  define st where "st = foldl (process_chunk_step 800 100 docId)
     \<lparr> p_chunks = [], p_currentChunk = [], p_chunkIndex = 0, p_startChar = 0 \<rparr> (process_sentences txt)"
  have inv: "process_inv st"
    unfolding st_def by (rule process_inv_loop) (simp add: process_inv_def)
  then have "length (map pc_chunkIndex (p_chunks st)) = length [0..<p_chunkIndex st]"
    by (simp only: process_inv_def)
  then have len: "length (p_chunks st) = p_chunkIndex st"
    by simp
  have res: "process_chunkDocument txt docId
      = (if length (trim (p_currentChunk st)) > 0 then p_chunks st @ [process_make_chunk docId st] else p_chunks st)"
    by (simp add: process_chunkDocument_def Let_def st_def)
  show ?thesis
    using inv len unfolding res by (auto simp: process_inv_def sorted_append)
qed


text \<open>
  C8. For every text, the chunks of either chunker carry, in output order, the indices
  \<open>0, 1, \<dots>, n - 1\<close>, and their start offsets never decrease from a chunk to the next.
\<close>

theorem C8_chunk_indices_and_offsets:
  "map chunkIndex (chunkDocument chunkSize chunkOverlap txt docId)
     = [0..<length (chunkDocument chunkSize chunkOverlap txt docId)]
   \<and> sorted (map (\<lambda>c. startChar (metadata c)) (chunkDocument chunkSize chunkOverlap txt docId))
   \<and> map pc_chunkIndex (process_chunkDocument txt docId) = [0..<length (process_chunkDocument txt docId)]
   \<and> sorted (map (\<lambda>c. pm_startChar (pc_metadata c)) (process_chunkDocument txt docId))"
  using chunkDocument_indices [of chunkSize chunkOverlap "txt" docId]
    process_chunkDocument_indices [of "txt" docId]
  by simp

text \<open>The text \<open>A. B. C.\<close> with a chunk size of one token and an overlap of one word.\<close>

theorem C8_chunk_indices_and_offsets_witness:
  "map chunkIndex (chunkDocument 1 4 ''A. B. C.'' ''d'') = [0, 1, 2]
   \<and> map (\<lambda>c. startChar (metadata c)) (chunkDocument 1 4 ''A. B. C.'' ''d'') = [0, 3, 6]
   \<and> map content (chunkDocument 1 4 ''A. B. C.'' ''d'') = [''A.'', ''A. B.'', ''B. C.'']"
proof -
  have cs: "map content (chunkDocument 1 4 ''A. B. C.'' ''d'') = [''A.'', ''A. B.'', ''B. C.'']"
    by code_simp
  then have "length (chunkDocument 1 4 ''A. B. C.'' ''d'') = 3"
    using length_map [of content "chunkDocument 1 4 ''A. B. C.'' ''d''"] by simp
  then have "map chunkIndex (chunkDocument 1 4 ''A. B. C.'' ''d'') = [0, 1, 2]"
    using C8_chunk_indices_and_offsets [of 1 4 "''A. B. C.''" "''d''"]
    by (simp add: upt_rec)
  moreover have "map (\<lambda>c. startChar (metadata c)) (chunkDocument 1 4 ''A. B. C.'' ''d'') = [0, 3, 6]"
    by code_simp
  ultimately show ?thesis using cs by simp
qed

subsection \<open>Texts that give one chunk\<close>

lemma trim_eq_Nil_iff: "trim s = [] \<longleftrightarrow> (\<forall>c\<in>set s. is_space c)"
proof -
  have "trim s = [] \<longleftrightarrow> dropWhile is_space (rev (dropWhile is_space s)) = []"
    by (simp add: trim_def)
  also have "\<dots> \<longleftrightarrow> (\<forall>c\<in>set (dropWhile is_space s). is_space c)"
    by (simp add: dropWhile_eq_Nil_conv)
  also have "\<dots> \<longleftrightarrow> dropWhile is_space s = []"
  proof
    assume a: "\<forall>c\<in>set (dropWhile is_space s). is_space c"
    show "dropWhile is_space s = []"
    proof (rule ccontr)
      assume n: "dropWhile is_space s \<noteq> []"
      then have "\<not> is_space (hd (dropWhile is_space s))" by (rule hd_dropWhile)
      moreover have "hd (dropWhile is_space s) \<in> set (dropWhile is_space s)" using n by simp
      ultimately show False using a by blast
    qed
  next
    assume "dropWhile is_space s = []"
    then show "\<forall>c\<in>set (dropWhile is_space s). is_space c" by (simp only: list.set ball_empty)
  qed
  also have "\<dots> \<longleftrightarrow> (\<forall>c\<in>set s. is_space c)"
    by (simp add: dropWhile_eq_Nil_conv)
  finally show ?thesis .
qed

lemma nonspace_in_trim: "trim s \<noteq> [] \<Longrightarrow> \<exists>c\<in>set (trim s). \<not> is_space c"
proof -
  assume "trim s \<noteq> []"
  then have n: "dropWhile is_space (rev (dropWhile is_space s)) \<noteq> []"
    by (simp add: trim_def)
  then have "\<not> is_space (hd (dropWhile is_space (rev (dropWhile is_space s))))"
    by (rule hd_dropWhile)
  moreover have "hd (dropWhile is_space (rev (dropWhile is_space s))) \<in> set (trim s)"
    using n by (simp add: trim_def)
  ultimately show ?thesis by blast
qed

lemma length_trim_le: "length (trim s) \<le> length s"
proof -
  have "length (trim s) = length (dropWhile is_space (rev (dropWhile is_space s)))"
    by (simp add: trim_def)
  also have "\<dots> \<le> length (rev (dropWhile is_space s))" by (rule length_dropWhile_le)
  also have "\<dots> \<le> length s" by (simp add: length_dropWhile_le)
  finally show ?thesis .
qed

lemma join_space_snoc:
  "join_space (xs @ [s]) = (if xs = [] then s else join_space xs @ '' '' @ s)"
  by (induction xs rule: join_space.induct) simp_all

lemma join_space_eq_Nil: "\<forall>x\<in>set xs. x \<noteq> [] \<Longrightarrow> join_space xs = [] \<longleftrightarrow> xs = []"
  by (induction xs rule: join_space.induct) simp_all

lemma length_join_space:
  "length (join_space xs) = sum_list (map length xs) + (length xs - 1)"
  by (induction xs rule: join_space.induct) simp_all

lemma length_join_space_append_le:
  "length (join_space xs) \<le> length (join_space (xs @ ys))"
  by (simp add: length_join_space) 

lemma set_hd_join_space: "xs \<noteq> [] \<Longrightarrow> set (hd xs) \<subseteq> set (join_space xs)"
  by (induction xs rule: join_space.induct) auto

lemma trim_join_space_nonempty:
  assumes "ys \<noteq> []" and "\<forall>y\<in>set ys. \<exists>c\<in>set y. \<not> is_space c"
  shows "trim (join_space ys) \<noteq> []"
proof -
  obtain c where "c \<in> set (hd ys)" "\<not> is_space c"
    using assms by (cases ys) auto
  then have "\<exists>c\<in>set (join_space ys). \<not> is_space c"
    using set_hd_join_space[OF assms(1)] by blast
  then show ?thesis by (simp add: trim_eq_Nil_iff)
qed

lemma kept_Nil [simp]: "kept_sentences [] = []"
  by (simp add: kept_sentences_def)

lemma kept_Cons:
  "kept_sentences (s # ss) = (if trim s = [] then kept_sentences ss else trim s # kept_sentences ss)"
  by (simp add: kept_sentences_def)

lemma kept_nonspace: "\<forall>y\<in>set (kept_sentences ss). \<exists>c\<in>set y. \<not> is_space c"
  using nonspace_in_trim by (auto simp: kept_sentences_def)

lemma chunk_step_skip:
  "trim s = [] \<Longrightarrow> chunk_step chunkSize chunkOverlap docId st s = st"
  by (simp add: chunk_step_def)

lemma chunk_step_keep:
  assumes "trim s \<noteq> []" and "\<forall>t\<in>set done. t \<noteq> []"
    and "done = [] \<or> real (length (join_space (done @ [trim s]))) / 4 \<le> chunkSize"
  shows "chunk_step chunkSize chunkOverlap docId
           \<lparr> chunks = [], currentChunk = join_space done, nextIndex = 0, nextStart = 0 \<rparr> s
         = \<lparr> chunks = [], currentChunk = join_space (done @ [trim s]), nextIndex = 0, nextStart = 0 \<rparr>"
proof (cases "done = []")
  case True
  then show ?thesis using assms(1) by (simp add: chunk_step_def)
next
  case False
  then have ne: "join_space done \<noteq> []"
    using assms(2) by (simp add: join_space_eq_Nil)
  have pot: "join_space done @ '' '' @ trim s = join_space (done @ [trim s])"
    using False by (simp add: join_space_snoc)
  have "\<not> real (length (join_space (done @ [trim s]))) / 4 > chunkSize"
    using assms(3) False by simp
  then show ?thesis
    using assms(1) ne pot by (simp add: chunk_step_def Let_def)
qed

lemma chunk_loop_no_close:
  assumes "\<forall>t\<in>set done. t \<noteq> []"
    and "kept_sentences ss = [] \<or> (done = [] \<and> length (kept_sentences ss) \<le> 1)
         \<or> real (length (join_space (done @ kept_sentences ss))) / 4 \<le> chunkSize"
  shows "foldl (chunk_step chunkSize chunkOverlap docId)
           \<lparr> chunks = [], currentChunk = join_space done, nextIndex = 0, nextStart = 0 \<rparr> ss
         = \<lparr> chunks = [], currentChunk = join_space (done @ kept_sentences ss), nextIndex = 0, nextStart = 0 \<rparr>"
  using assms
proof (induction ss arbitrary: "done")
  case Nil
  then show ?case by simp
next
  case (Cons s ss)
  show ?case
  proof (cases "trim s = []")
    case True
    then show ?thesis using Cons by (simp add: chunk_step_skip kept_Cons)
  next
    case False
    have k: "kept_sentences (s # ss) = trim s # kept_sentences ss"
      using False by (simp add: kept_Cons)
    have len: "length (join_space (done @ [trim s])) \<le> length (join_space (done @ trim s # kept_sentences ss))"
      using length_join_space_append_le[of "done @ [trim s]" "kept_sentences ss"] by simp
    have step: "done = [] \<or> real (length (join_space (done @ [trim s]))) / 4 \<le> chunkSize"
      using Cons.prems(2) len unfolding k by auto
    have next_ok: "kept_sentences ss = [] \<or> (done @ [trim s] = [] \<and> length (kept_sentences ss) \<le> 1)
         \<or> real (length (join_space ((done @ [trim s]) @ kept_sentences ss))) / 4 \<le> chunkSize"
      using Cons.prems(2) unfolding k by auto
    have all: "\<forall>t\<in>set (done @ [trim s]). t \<noteq> []"
      using Cons.prems(1) False by simp
    show ?thesis
      using chunk_step_keep[OF False Cons.prems(1) step] Cons.IH[OF all next_ok]
      unfolding k by simp
  qed
qed

lemma chunkDocument_one_chunk:
  assumes "kept_sentences (rag_sentences txt) \<noteq> []"
    and "length (kept_sentences (rag_sentences txt)) \<le> 1
         \<or> real (length (join_space (kept_sentences (rag_sentences txt)))) / 4 \<le> chunkSize"
  shows "length (chunkDocument chunkSize chunkOverlap txt docId) = 1"
proof -
  let ?ts = "kept_sentences (rag_sentences txt)"
  have "foldl (chunk_step chunkSize chunkOverlap docId)
           \<lparr> chunks = [], currentChunk = join_space [], nextIndex = 0, nextStart = 0 \<rparr> (rag_sentences txt)
         = \<lparr> chunks = [], currentChunk = join_space ([] @ ?ts), nextIndex = 0, nextStart = 0 \<rparr>"
    using assms(2) by (intro chunk_loop_no_close) auto
  then have st: "foldl (chunk_step chunkSize chunkOverlap docId)
           \<lparr> chunks = [], currentChunk = [], nextIndex = 0, nextStart = 0 \<rparr> (rag_sentences txt)
         = \<lparr> chunks = [], currentChunk = join_space ?ts, nextIndex = 0, nextStart = 0 \<rparr>"
    by simp
  have "trim (join_space ?ts) \<noteq> []"
    using assms(1) kept_nonspace by (rule trim_join_space_nonempty)
  then show ?thesis
    by (simp add: chunkDocument_def Let_def st)
qed


lemma process_step_skip:
  "trim s = [] \<Longrightarrow> process_chunk_step m v docId st s = st"
  by (simp add: process_chunk_step_def)

lemma process_step_keep:
  assumes "trim s \<noteq> []" and "\<forall>t\<in>set done. t \<noteq> []"
    and "done = [] \<or> real (length (join_space (done @ [trim s]))) / 4 \<le> m"
  shows "process_chunk_step m v docId
           \<lparr> p_chunks = [], p_currentChunk = join_space done, p_chunkIndex = 0, p_startChar = 0 \<rparr> s
         = \<lparr> p_chunks = [], p_currentChunk = join_space (done @ [trim s]), p_chunkIndex = 0, p_startChar = 0 \<rparr>"
proof (cases "done = []")
  case True
  then show ?thesis using assms(1) by (simp add: process_chunk_step_def)
next
  case False
  then have ne: "join_space done \<noteq> []"
    using assms(2) by (simp add: join_space_eq_Nil)
  have pot: "join_space done @ '' '' @ trim s = join_space (done @ [trim s])"
    using False by (simp add: join_space_snoc)
  have "length (join_space done @ trim s) \<le> length (join_space (done @ [trim s]))"
    unfolding pot[symmetric] by simp
  then have "real (length (join_space done @ trim s)) / 4 \<le> m"
    using assms(3) False by simp
  then have "\<not> real (length (join_space done @ trim s)) / 4 > m"
    by simp
  then show ?thesis
    using assms(1) ne pot by (simp add: process_chunk_step_def Let_def)
qed

lemma process_loop_no_close:
  assumes "\<forall>t\<in>set done. t \<noteq> []"
    and "kept_sentences ss = [] \<or> (done = [] \<and> length (kept_sentences ss) \<le> 1)
         \<or> real (length (join_space (done @ kept_sentences ss))) / 4 \<le> m"
  shows "foldl (process_chunk_step m v docId)
           \<lparr> p_chunks = [], p_currentChunk = join_space done, p_chunkIndex = 0, p_startChar = 0 \<rparr> ss
         = \<lparr> p_chunks = [], p_currentChunk = join_space (done @ kept_sentences ss), p_chunkIndex = 0, p_startChar = 0 \<rparr>"
  using assms
proof (induction ss arbitrary: "done")
  case Nil
  then show ?case by simp
next
  case (Cons s ss)
  show ?case
  proof (cases "trim s = []")
    case True
    then show ?thesis using Cons by (simp add: process_step_skip kept_Cons)
  next
    case False
    have k: "kept_sentences (s # ss) = trim s # kept_sentences ss"
      using False by (simp add: kept_Cons)
    have len: "length (join_space (done @ [trim s])) \<le> length (join_space (done @ trim s # kept_sentences ss))"
      using length_join_space_append_le[of "done @ [trim s]" "kept_sentences ss"] by simp
    have step: "done = [] \<or> real (length (join_space (done @ [trim s]))) / 4 \<le> m"
      using Cons.prems(2) len unfolding k by auto
    have next_ok: "kept_sentences ss = [] \<or> (done @ [trim s] = [] \<and> length (kept_sentences ss) \<le> 1)
         \<or> real (length (join_space ((done @ [trim s]) @ kept_sentences ss))) / 4 \<le> m"
      using Cons.prems(2) unfolding k by auto
    have all: "\<forall>t\<in>set (done @ [trim s]). t \<noteq> []"
      using Cons.prems(1) False by simp
    show ?thesis
      using process_step_keep[OF False Cons.prems(1) step] Cons.IH[OF all next_ok]
      unfolding k by simp
  qed
qed

lemma process_chunkDocument_one_chunk:
  assumes "kept_sentences (process_sentences txt) \<noteq> []"
    and "length (kept_sentences (process_sentences txt)) \<le> 1
         \<or> real (length (join_space (kept_sentences (process_sentences txt)))) / 4 \<le> 800"
  shows "length (process_chunkDocument txt docId) = 1"
proof -
  let ?ts = "kept_sentences (process_sentences txt)"
  have "foldl (process_chunk_step 800 100 docId)
           \<lparr> p_chunks = [], p_currentChunk = join_space [], p_chunkIndex = 0, p_startChar = 0 \<rparr> (process_sentences txt)
         = \<lparr> p_chunks = [], p_currentChunk = join_space ([] @ ?ts), p_chunkIndex = 0, p_startChar = 0 \<rparr>"
    using assms(2) by (intro process_loop_no_close) auto
  then have st: "foldl (process_chunk_step 800 100 docId)
           \<lparr> p_chunks = [], p_currentChunk = [], p_chunkIndex = 0, p_startChar = 0 \<rparr> (process_sentences txt)
         = \<lparr> p_chunks = [], p_currentChunk = join_space ?ts, p_chunkIndex = 0, p_startChar = 0 \<rparr>"
    by simp
  have "trim (join_space ?ts) \<noteq> []"
    using assms(1) kept_nonspace by (rule trim_join_space_nonempty)
  then show ?thesis
    by (simp add: process_chunkDocument_def Let_def st)
qed

text \<open>The pieces of a split, with one separator between neighbours, fit in the text.\<close>

lemma split_runs_length:
  "sum_list (map length (split_runs C cur insep s)) + length (split_runs C cur insep s)
     \<le> length cur + length s + 1"
proof (induction s arbitrary: cur insep)
  case Nil
  then show ?case by simp
next
  case (Cons c cs)
  show ?case
  proof (cases "C c")
    case True
    then show ?thesis
      using Cons.IH[of "[]" True] by (cases insep) simp_all
  next
    case False
    then show ?thesis
      using Cons.IH[of "cur @ [c]" False] by simp
  qed
qed

lemma kept_filter_le:
  "sum_list (map length (kept_sentences (filter P xs))) + length (kept_sentences (filter P xs))
     \<le> sum_list (map length xs) + length xs"
proof (induction xs)
  case Nil
  then show ?case by simp
next
  case (Cons x xs)
  then show ?case
    using length_trim_le[of x] by (simp add: kept_Cons)
qed

lemma process_joined_length_le:
  "length (join_space (kept_sentences (process_sentences txt))) \<le> length txt"
proof -
  let ?ts = "kept_sentences (process_sentences txt)"
  have "sum_list (map length ?ts) + length ?ts
          \<le> sum_list (map length (split_on is_terminal txt)) + length (split_on is_terminal txt)"
    unfolding process_sentences_def by (rule kept_filter_le)
  also have "\<dots> \<le> length txt + 1"
    using split_runs_length[of is_terminal "[]" False "txt"] by (simp add: split_on_def)
  finally have le: "sum_list (map length ?ts) + length ?ts \<le> length txt + 1" .
  show ?thesis
  proof (cases "?ts = []")
    case True
    then show ?thesis by simp
  next
    case False
    then obtain n where n: "length ?ts = Suc n" by (cases ?ts) auto
    have "length (join_space ?ts) = sum_list (map length ?ts) + n"
      by (simp add: length_join_space n)
    then show ?thesis using le n by linarith
  qed
qed

lemma kept_process_sentences:
  "kept_sentences (process_sentences txt) = map trim (process_sentences txt)"
  by (simp add: kept_sentences_def process_sentences_def filter_id_conv)

lemma match_runs_no_class:
  "\<forall>c\<in>set s. \<not> C c \<Longrightarrow> match_runs C body [] s = []"
  by (induction s arbitrary: body) simp_all

lemma split_runs_no_class:
  "\<forall>c\<in>set s. \<not> C c \<Longrightarrow> split_runs C cur False s = [cur @ s]"
  by (induction s arbitrary: cur) simp_all

lemma rag_sentences_no_terminal:
  "\<forall>c\<in>set txt. \<not> is_terminal c \<Longrightarrow> rag_sentences txt = [txt]"
  by (simp add: rag_sentences_def match_sentences_def match_runs_no_class)

lemma process_sentences_no_terminal:
  "\<forall>c\<in>set txt. \<not> is_terminal c \<Longrightarrow>
   process_sentences txt = (if trim txt = [] then [] else [txt])"
  by (simp add: process_sentences_def split_on_def split_runs_no_class)

text \<open>
  C7, as the code has it. A text without sentence-terminal punctuation is the only
  sentence of the RAG chunker; when such a text is not blank it is also the only sentence
  of the endpoint's chunker (a blank text has no sentence there), and both chunkers make
  exactly one chunk of it. A text with a sentence that is not blank gives exactly one
  chunk when the estimated token count does not exceed the chunk size: for the RAG
  chunker the estimate of what its buffer holds, the trimmed sentences joined by single
  spaces; for the endpoint's chunker, whose chunk size is 800, the estimate of the text.
\<close>

theorem C7_one_sentence_one_chunk:
  "((\<forall>c\<in>set txt. \<not> is_terminal c) \<longrightarrow>
      rag_sentences txt = [txt]
      \<and> (trim txt \<noteq> [] \<longrightarrow>
           process_sentences txt = [txt]
           \<and> length (chunkDocument chunkSize chunkOverlap txt docId) = 1
           \<and> length (process_chunkDocument txt docId) = 1))
   \<and> (kept_sentences (rag_sentences txt) \<noteq> []
        \<and> real (length (join_space (kept_sentences (rag_sentences txt)))) / 4 \<le> chunkSize
      \<longrightarrow> length (chunkDocument chunkSize chunkOverlap txt docId) = 1)
   \<and> (process_sentences txt \<noteq> [] \<and> real (length txt) / 4 \<le> 800
      \<longrightarrow> length (process_chunkDocument txt docId) = 1)"
proof (intro conjI impI)
  assume nt: "\<forall>c\<in>set txt. \<not> is_terminal c"
  show "rag_sentences txt = [txt]" using nt by (rule rag_sentences_no_terminal)
  assume ne: "trim txt \<noteq> []"
  show ps: "process_sentences txt = [txt]"
    using nt ne by (simp add: process_sentences_no_terminal)
  have k1: "kept_sentences (rag_sentences txt) = [trim txt]"
    using nt ne by (simp add: rag_sentences_no_terminal kept_Cons)
  show "length (chunkDocument chunkSize chunkOverlap txt docId) = 1"
    by (rule chunkDocument_one_chunk) (simp_all add: k1)
  have k2: "kept_sentences (process_sentences txt) = [trim txt]"
    using ne by (simp add: ps kept_Cons)
  show "length (process_chunkDocument txt docId) = 1"
    by (rule process_chunkDocument_one_chunk) (simp_all add: k2)
next
  assume "kept_sentences (rag_sentences txt) \<noteq> []
        \<and> real (length (join_space (kept_sentences (rag_sentences txt)))) / 4 \<le> chunkSize"
  then show "length (chunkDocument chunkSize chunkOverlap txt docId) = 1"
    by (intro chunkDocument_one_chunk) simp_all
next
  assume a: "process_sentences txt \<noteq> [] \<and> real (length txt) / 4 \<le> 800"
  then have ne: "kept_sentences (process_sentences txt) \<noteq> []"
    by (simp add: kept_process_sentences)
  have "real (length (join_space (kept_sentences (process_sentences txt)))) \<le> real (length txt)"
    using process_joined_length_le[of "txt"] by simp
  then have "real (length (join_space (kept_sentences (process_sentences txt)))) / 4 \<le> 800"
    using a by simp
  then show "length (process_chunkDocument txt docId) = 1"
    using ne by (intro process_chunkDocument_one_chunk) simp_all
qed

text \<open>A text without punctuation, and a text of two sentences, both far below 800 tokens.\<close>

theorem C7_one_sentence_one_chunk_witness:
  "rag_sentences ''hello world'' = [''hello world'']
   \<and> process_sentences ''hello world'' = [''hello world'']
   \<and> length (chunkDocument 800 100 ''hello world'' ''d'') = 1
   \<and> length (process_chunkDocument ''hello world'' ''d'') = 1
   \<and> kept_sentences (rag_sentences ''Hello world. Bye now.'') = [''Hello world.'', ''Bye now.'']
   \<and> length (chunkDocument 800 100 ''Hello world. Bye now.'' ''d'') = 1
   \<and> process_sentences ''Hello world. Bye now.'' = [''Hello world'', '' Bye now'']
   \<and> length (process_chunkDocument ''Hello world. Bye now.'' ''d'') = 1"
proof -
  have nt: "\<forall>c\<in>set ''hello world''. \<not> is_terminal c"
    by (simp add: is_terminal_def)
  have ne: "trim ''hello world'' \<noteq> []"
    by (simp add: trim_def is_space_def)
  have k: "kept_sentences (rag_sentences ''Hello world. Bye now.'') = [''Hello world.'', ''Bye now.'']"
    by code_simp
  have ps: "process_sentences ''Hello world. Bye now.'' = [''Hello world'', '' Bye now'']"
    by code_simp
  have short: "real (length (join_space (kept_sentences (rag_sentences ''Hello world. Bye now.'')))) / 4 \<le> 800"
    unfolding k by simp
  have short': "real (length ''Hello world. Bye now.'') / 4 \<le> 800"
    by simp
  show ?thesis
    using C7_one_sentence_one_chunk [of "''hello world''" 800 100 "''d''"]
      C7_one_sentence_one_chunk [of "''Hello world. Bye now.''" 800 100 "''d''"]
      nt ne k ps short short'
    by simp
qed

text \<open>
  The text \<open>a.b.\<close> has an estimate of one token, and with a chunk size of one token the
  RAG chunker makes two chunks of it: its buffer \<open>a. b.\<close> is one character longer than
  the text. The empty text, which has no punctuation and an estimate of zero tokens, has
  no sentence in the endpoint's chunker and gives no chunk in either chunker.
\<close>

theorem C7_short_document_counterexample:
  "real (length ''a.b.'') / 4 \<le> 1
   \<and> map content (chunkDocument 1 0 ''a.b.'' ''d'') = [''a.'', ''a. b.'']
   \<and> real (length ([] :: string)) / 4 \<le> 800
   \<and> process_sentences [] = []
   \<and> chunkDocument 800 100 [] ''d'' = []
   \<and> process_chunkDocument [] ''d'' = []"
proof -
  have "map content (chunkDocument 1 0 ''a.b.'' ''d'') = [''a.'', ''a. b.'']"
    by code_simp
  moreover have "process_sentences [] = []"
    by code_simp
  moreover have "chunkDocument 800 100 [] ''d'' = []"
    by (simp add: chunkDocument_def rag_sentences_def match_sentences_def chunk_step_def trim_def)
  moreover have "process_chunkDocument [] ''d'' = []"
    by (simp add: process_chunkDocument_def process_sentences_def split_on_def trim_def)
  ultimately show ?thesis by simp
qed

section \<open>Properties of the document store\<close>











subsection \<open>A document of two chunks and a partial embedding reply\<close>













subsection \<open>What is stored and what is reported\<close>




end
